theory Spec2Isabelle
  imports Complex_Main "HOL-Library.Word"
begin

section \<open>The live conversation component (src/components/LiveConversation.tsx)\<close>

text \<open>
  The component is a single-threaded event handler around browser objects. The model keeps
  the React state and the refs of the component in one record, passes it through every
  handler, and returns next to it the list of calls the handler made on browser objects and
  on the transport, in the order the source makes them. A handler that throws ends where it
  throws: the state changes made before stay, the statements after are not run, and the last
  entry of its list is \<open>Throw\<close>. Each handler is one atomic step: the
  handlers run on one event loop, and the two suspensions (the decoding of the audio payload
  inside \<open>onmessage\<close>, and \<open>getUserMedia\<close> inside \<open>startConversation\<close>) are taken to resume
  before any other handler runs.

  Times (\<open>AudioContext.currentTime\<close>, \<open>AudioBuffer.duration\<close>, \<open>nextStartTimeRef\<close>) are
  JavaScript numbers; they are modelled as reals, so rounding of the additions is left out.
\<close>

subsection \<open>Data\<close>

datatype ConversationState = Idle | Listening | Connecting | Error

record transcription =
  user :: string
  model :: string

definition emptyTranscription :: transcription where
  "emptyTranscription = \<lparr>user = '''', model = ''''\<rparr>"

type_synonym session = nat
type_synonym track = nat
type_synonym source_node = nat

text \<open>A \<open>MediaStream\<close> is what \<open>getTracks()\<close> returns for it.\<close>

type_synonym media_stream = "track list"

datatype context_state = Suspended | Running | Closed

record audio_context =
  ctx_state :: context_state

datatype which_context = InputContext | OutputContext

record blob =
  blob_data :: string
  mimeType :: string

datatype js_error = TypeError

datatype effect =
    CancelAnimationFrame nat
  | RequestAnimationFrame nat
  | SessionClose session
  | TrackStop track
  | ScriptProcessorDisconnect
  | AudioContextClose which_context
  | SourceStart source_node real
  | SourceStop source_node
  | SendRealtimeInput session blob
  | GetUserMedia
  | Connect session
  | ConsoleError
  | Throw js_error

text \<open>
  The refs and the React state of the component. \<open>sourcesRef\<close> is a JavaScript \<open>Set\<close> of
  source nodes: a list without repetition in insertion order, the order \<open>forEach\<close> visits.
  Two fields are not refs of the source: \<open>closedOver\<close> is the value of
  \<open>currentTranscription\<close> that the callbacks handed to \<open>ai.live.connect\<close> closed over (they
  are created once, inside the \<open>startConversation\<close> of one render), and \<open>created\<close> counts the
  source nodes made so far, so that \<open>createBufferSource\<close> yields a new object each time.
\<close>

record component =
  conversationState :: ConversationState
  transcriptions :: "transcription list"
  currentTranscription :: transcription
  sessionPromiseRef :: "session option"
  mediaStreamRef :: "media_stream option"
  audioContextRef :: "audio_context option"
  scriptProcessorRef :: "unit option"
  outputAudioContextRef :: "audio_context option"
  nextStartTimeRef :: real
  sourcesRef :: "source_node list"
  analyserRef :: "unit option"
  animationFrameRef :: "nat option"
  closedOver :: transcription
  created :: nat

definition initial :: component where
  "initial = \<lparr>conversationState = Idle, transcriptions = [],
     currentTranscription = emptyTranscription,
     sessionPromiseRef = None, mediaStreamRef = None, audioContextRef = None,
     scriptProcessorRef = None, outputAudioContextRef = None, nextStartTimeRef = 0,
     sourcesRef = [], analyserRef = None, animationFrameRef = None,
     closedOver = emptyTranscription, created = 0\<rparr>"

text \<open>Running one handler part after another, collecting the calls of both.\<close>

definition andThen ::
  "(component \<Rightarrow> component \<times> effect list) \<Rightarrow> (component \<Rightarrow> component \<times> effect list)
    \<Rightarrow> component \<Rightarrow> component \<times> effect list" where
  "andThen f g s = (case f s of (s1, e1) \<Rightarrow> (case g s1 of (s2, e2) \<Rightarrow> (s2, e1 @ e2)))"

subsection \<open>stopConversation\<close>

text \<open>
  Each definition is one \<open>if\<close> block of \<open>stopConversation\<close>. \<open>if (animationFrameRef.current)\<close>
  is JavaScript truthiness of a number: the handle 0 does not pass. The function has no
  \<open>throw\<close>, and each call it makes is behind the guard that its object is present (for the
  two contexts: present and not closed); \<open>session.close()\<close> runs later, inside \<open>then\<close>.
\<close>

definition stopAnimationFrame :: "component \<Rightarrow> component \<times> effect list" where
  "stopAnimationFrame s =
     (case animationFrameRef s of
        None \<Rightarrow> (s, [])
      | Some h \<Rightarrow> if h \<noteq> 0 then (s\<lparr>animationFrameRef := None\<rparr>, [CancelAnimationFrame h])
                  else (s, []))"

definition stopSession :: "component \<Rightarrow> component \<times> effect list" where
  "stopSession s =
     (case sessionPromiseRef s of
        None \<Rightarrow> (s, [])
      | Some p \<Rightarrow> (s\<lparr>sessionPromiseRef := None\<rparr>, [SessionClose p]))"

definition stopMediaStream :: "component \<Rightarrow> component \<times> effect list" where
  "stopMediaStream s =
     (case mediaStreamRef s of
        None \<Rightarrow> (s, [])
      | Some stream \<Rightarrow> (s\<lparr>mediaStreamRef := None\<rparr>, map TrackStop stream))"

definition stopScriptProcessor :: "component \<Rightarrow> component \<times> effect list" where
  "stopScriptProcessor s =
     (case scriptProcessorRef s of
        None \<Rightarrow> (s, [])
      | Some _ \<Rightarrow> (s\<lparr>scriptProcessorRef := None\<rparr>, [ScriptProcessorDisconnect]))"

text \<open>\<open>ref.current && ref.current.state !== 'closed'\<close>\<close>

definition isOpen :: "audio_context option \<Rightarrow> bool" where
  "isOpen ref = (case ref of None \<Rightarrow> False | Some c \<Rightarrow> ctx_state c \<noteq> Closed)"

definition stopAudioContext :: "component \<Rightarrow> component \<times> effect list" where
  "stopAudioContext s =
     (s\<lparr>audioContextRef := None\<rparr>,
      if isOpen (audioContextRef s) then [AudioContextClose InputContext] else [])"

definition stopOutputAudioContext :: "component \<Rightarrow> component \<times> effect list" where
  "stopOutputAudioContext s =
     (if isOpen (outputAudioContextRef s)
      then (s\<lparr>sourcesRef := [], outputAudioContextRef := None\<rparr>,
            map SourceStop (sourcesRef s) @ [AudioContextClose OutputContext])
      else (s\<lparr>outputAudioContextRef := None\<rparr>, []))"

definition setConversationState :: "ConversationState \<Rightarrow> component \<Rightarrow> component \<times> effect list" where
  "setConversationState c s = (s\<lparr>conversationState := c\<rparr>, [])"

definition stopConversation :: "component \<Rightarrow> component \<times> effect list" where
  "stopConversation =
     andThen stopAnimationFrame
    (andThen stopSession
    (andThen stopMediaStream
    (andThen stopScriptProcessor
    (andThen stopAudioContext
    (andThen stopOutputAudioContext
             (setConversationState Idle))))))"

subsection \<open>Server messages\<close>

text \<open>
  The part of \<open>LiveServerMessage\<close> that \<open>onmessage\<close> reads. Optional properties are
  options, \<open>parts\<close> of a \<open>modelTurn\<close> among them. \<open>base64\<close> is the property \<open>data\<close> of
  \<open>inlineData\<close>.
\<close>

record transcript =
  transcript_text :: "string option"

record inline_data =
  base64 :: "string option"

record part =
  inlineData :: "inline_data option"

record content =
  parts :: "part list option"

record server_content =
  inputTranscription :: "transcript option"
  outputTranscription :: "transcript option"
  turnComplete :: bool
  modelTurn :: "content option"
  interrupted :: bool

record live_server_message =
  serverContent :: "server_content option"

text \<open>
  What the handler reads from the browser while it runs: \<open>outputCtx.currentTime\<close> and the
  \<open>duration\<close> of the buffer that \<open>decodeAudioData\<close> (utils/audioUtils, not part of the
  sources at hand) returns for the payload.
\<close>

record readings =
  currentTime :: real
  duration :: real

text \<open>String concatenation with a property that may be \<open>undefined\<close>.\<close>

definition js_text :: "string option \<Rightarrow> string" where
  "js_text t = (case t of None \<Rightarrow> ''undefined'' | Some x \<Rightarrow> x)"

text \<open>
  \<open>message.serverContent?.modelTurn?.parts[0]?.inlineData?.data\<close>: every step of the chain
  is guarded by \<open>?.\<close> except the index into \<open>parts\<close>. With a \<open>modelTurn\<close> that has no
  \<open>parts\<close>, \<open>parts[0]\<close> is a \<open>TypeError\<close>; an empty array gives \<open>undefined\<close>.
\<close>

definition base64Audio :: "live_server_message \<Rightarrow> js_error + string option" where
  "base64Audio m =
     (case serverContent m of
        None \<Rightarrow> Inr None
      | Some sc \<Rightarrow>
          (case modelTurn sc of
             None \<Rightarrow> Inr None
           | Some mt \<Rightarrow>
               (case parts mt of
                  None \<Rightarrow> Inl TypeError
                | Some [] \<Rightarrow> Inr None
                | Some (p # _) \<Rightarrow>
                    (case inlineData p of
                       None \<Rightarrow> Inr None
                     | Some d \<Rightarrow> Inr (base64 d)))))"

text \<open>Truthiness of an optional string: present and not empty.\<close>

definition truthy :: "string option \<Rightarrow> bool" where
  "truthy t = (case t of None \<Rightarrow> False | Some x \<Rightarrow> x \<noteq> [])"

text \<open>\<open>Set.add\<close> and \<open>Set.delete\<close> on the insertion-ordered list.\<close>

definition set_add :: "'a \<Rightarrow> 'a list \<Rightarrow> 'a list" where
  "set_add x xs = (if x \<in> set xs then xs else xs @ [x])"

definition set_delete :: "'a \<Rightarrow> 'a list \<Rightarrow> 'a list" where
  "set_delete x xs = removeAll x xs"

subsection \<open>onmessage\<close>

text \<open>
  The optional chains the handler tests: \<open>message.serverContent?.inputTranscription\<close>,
  \<open>?.outputTranscription\<close>, \<open>?.turnComplete\<close> and \<open>?.interrupted\<close>.
\<close>

definition inputTranscriptionOf :: "live_server_message \<Rightarrow> transcript option" where
  "inputTranscriptionOf m = (case serverContent m of None \<Rightarrow> None | Some sc \<Rightarrow> inputTranscription sc)"

definition outputTranscriptionOf :: "live_server_message \<Rightarrow> transcript option" where
  "outputTranscriptionOf m = (case serverContent m of None \<Rightarrow> None | Some sc \<Rightarrow> outputTranscription sc)"

definition turnCompleteOf :: "live_server_message \<Rightarrow> bool" where
  "turnCompleteOf m = (case serverContent m of None \<Rightarrow> False | Some sc \<Rightarrow> turnComplete sc)"

definition interruptedOf :: "live_server_message \<Rightarrow> bool" where
  "interruptedOf m = (case serverContent m of None \<Rightarrow> False | Some sc \<Rightarrow> interrupted sc)"

definition onInputTranscription :: "live_server_message \<Rightarrow> component \<Rightarrow> component \<times> effect list" where
  "onInputTranscription m s =
     (case inputTranscriptionOf m of
        None \<Rightarrow> (s, [])
      | Some t \<Rightarrow>
          (s\<lparr>currentTranscription := (currentTranscription s)
                \<lparr>user := user (currentTranscription s) @ js_text (transcript_text t)\<rparr>\<rparr>, []))"

definition onOutputTranscription :: "live_server_message \<Rightarrow> component \<Rightarrow> component \<times> effect list" where
  "onOutputTranscription m s =
     (case outputTranscriptionOf m of
        None \<Rightarrow> (s, [])
      | Some t \<Rightarrow>
          (s\<lparr>currentTranscription := (currentTranscription s)
                \<lparr>model := model (currentTranscription s) @ js_text (transcript_text t)\<rparr>\<rparr>, []))"

text \<open>
  \<open>setTranscriptions(prev => [...prev, currentTranscription])\<close> appends the
  \<open>currentTranscription\<close> of the closure, not the state that the two updaters above work on.
\<close>

definition onTurnComplete :: "live_server_message \<Rightarrow> component \<Rightarrow> component \<times> effect list" where
  "onTurnComplete m s =
     (if turnCompleteOf m
      then (s\<lparr>transcriptions := transcriptions s @ [closedOver s],
              currentTranscription := emptyTranscription\<rparr>, [])
      else (s, []))"

text \<open>
  Whether reading the payload throws, and whether it yields a payload that passes as true.
\<close>

definition rejects :: "live_server_message \<Rightarrow> bool" where
  "rejects m = (case base64Audio m of Inl e \<Rightarrow> True | Inr b \<Rightarrow> False)"

definition hasAudio :: "live_server_message \<Rightarrow> bool" where
  "hasAudio m = (case base64Audio m of Inl e \<Rightarrow> False | Inr b \<Rightarrow> truthy b)"

text \<open>Whether the handler gets to the interruption block and its guard passes.\<close>

definition resets :: "live_server_message \<Rightarrow> bool" where
  "resets m = (interruptedOf m \<and> \<not> rejects m)"

text \<open>The guard \<open>if (base64Audio && outputAudioContextRef.current)\<close>.\<close>

definition scheduling :: "live_server_message \<Rightarrow> component \<Rightarrow> bool" where
  "scheduling m s = (hasAudio m \<and> outputAudioContextRef s \<noteq> None)"

definition onAudio :: "readings \<Rightarrow> live_server_message \<Rightarrow> component \<Rightarrow> component \<times> effect list" where
  "onAudio r m s =
     (if scheduling m s
      then (let start = max (nextStartTimeRef s) (currentTime r);
                sourceNode = created s
            in (s\<lparr>nextStartTimeRef := start + duration r,
                  sourcesRef := set_add sourceNode (sourcesRef s),
                  created := Suc (created s)\<rparr>,
                [SourceStart sourceNode start]))
      else (s, []))"

definition onInterrupted :: "live_server_message \<Rightarrow> component \<Rightarrow> component \<times> effect list" where
  "onInterrupted m s =
     (if interruptedOf m
      then (s\<lparr>sourcesRef := [], nextStartTimeRef := 0\<rparr>, map SourceStop (sourcesRef s))
      else (s, []))"

text \<open>
  Lines 151 to 171: the payload is read first. When that throws, the promise of the handler
  is rejected there, and neither the audio block nor the interruption block runs.
\<close>

definition onModelTurn :: "readings \<Rightarrow> live_server_message \<Rightarrow> component \<Rightarrow> component \<times> effect list" where
  "onModelTurn r m s =
     (case base64Audio m of
        Inl e \<Rightarrow> (s, [Throw e])
      | Inr b \<Rightarrow> andThen (onAudio r m) (onInterrupted m) s)"

definition onmessage :: "readings \<Rightarrow> live_server_message \<Rightarrow> component \<Rightarrow> component \<times> effect list" where
  "onmessage r m =
     andThen (onInputTranscription m)
    (andThen (onOutputTranscription m)
    (andThen (onTurnComplete m)
             (onModelTurn r m)))"

text \<open>The \<open>ended\<close> listener of a source node.\<close>

definition onended :: "source_node \<Rightarrow> component \<Rightarrow> component \<times> effect list" where
  "onended n s = (s\<lparr>sourcesRef := set_delete n (sourcesRef s)\<rparr>, [])"

subsection \<open>startConversation and the other callbacks\<close>

text \<open>
  \<open>startConversation\<close> is a \<open>useCallback\<close> closure: its guard reads the \<open>conversationState\<close>
  of the render that created it, and the callbacks it hands to \<open>ai.live.connect\<close> read the
  \<open>currentTranscription\<close> of that render.
\<close>

record render =
  rendered_conversationState :: ConversationState
  rendered_currentTranscription :: transcription

definition render_of :: "component \<Rightarrow> render" where
  "render_of s = \<lparr>rendered_conversationState = conversationState s,
                   rendered_currentTranscription = currentTranscription s\<rparr>"

text \<open>
  How the body of the \<open>try\<close> block went: \<open>getUserMedia\<close> rejected; or it gave a stream and a
  later statement threw before the contexts were made; or every statement ran and
  \<open>ai.live.connect\<close> returned the promise of a session.
\<close>

datatype start_outcome =
    GetUserMediaRejected
  | ThrewAfterStream media_stream
  | Connected media_stream session

text \<open>A new \<open>AudioContext\<close> is running or suspended, never closed.\<close>

definition newAudioContext :: audio_context where
  "newAudioContext = \<lparr>ctx_state = Running\<rparr>"

definition catchStart :: "component \<Rightarrow> component \<times> effect list" where
  "catchStart s =
     (case stopConversation (s\<lparr>conversationState := Error\<rparr>) of
        (s', effs) \<Rightarrow> (s', ConsoleError # effs))"

definition startConversation :: "render \<Rightarrow> start_outcome \<Rightarrow> component \<Rightarrow> component \<times> effect list" where
  "startConversation rd out s =
     (if rendered_conversationState rd \<noteq> Idle then (s, [])
      else
        (let s1 = s\<lparr>conversationState := Connecting, transcriptions := [],
                     currentTranscription := emptyTranscription\<rparr>
         in case out of
              GetUserMediaRejected \<Rightarrow>
                (case catchStart s1 of (s2, effs) \<Rightarrow> (s2, GetUserMedia # effs))
            | ThrewAfterStream stream \<Rightarrow>
                (case catchStart (s1\<lparr>mediaStreamRef := Some stream\<rparr>) of
                   (s2, effs) \<Rightarrow> (s2, GetUserMedia # effs))
            | Connected stream p \<Rightarrow>
                (s1\<lparr>mediaStreamRef := Some stream,
                    audioContextRef := Some newAudioContext,
                    outputAudioContextRef := Some newAudioContext,
                    nextStartTimeRef := 0,
                    sessionPromiseRef := Some p,
                    closedOver := rendered_currentTranscription rd\<rparr>,
                 [GetUserMedia, Connect p])))"

text \<open>
  What the animation loop reads from the browser: whether the element of \<open>visualizerRef\<close> is
  mounted, and the handle that \<open>requestAnimationFrame\<close> returns.
\<close>

record frame =
  visualizerMounted :: bool
  handle :: nat

definition visualize :: "frame \<Rightarrow> component \<Rightarrow> component \<times> effect list" where
  "visualize f s =
     (if analyserRef s = None \<or> \<not> visualizerMounted f then (s, [])
      else (s\<lparr>animationFrameRef := Some (handle f)\<rparr>, [RequestAnimationFrame (handle f)]))"

text \<open>
  \<open>onopen\<close> dereferences \<open>audioContextRef.current!\<close>; after a teardown that is \<open>null\<close> and the
  callback throws a \<open>TypeError\<close> there, the state already set to listening.
\<close>

definition onopen :: "frame \<Rightarrow> component \<Rightarrow> component \<times> effect list" where
  "onopen f s =
     (let s1 = s\<lparr>conversationState := Listening\<rparr>
      in case audioContextRef s1 of
           None \<Rightarrow> (s1, [Throw TypeError])
         | Some _ \<Rightarrow> visualize f (s1\<lparr>scriptProcessorRef := Some (), analyserRef := Some ()\<rparr>))"

definition onclose :: "component \<Rightarrow> component \<times> effect list" where
  "onclose = stopConversation"

definition onerror :: "component \<Rightarrow> component \<times> effect list" where
  "onerror s =
     (case stopConversation (s\<lparr>conversationState := Error\<rparr>) of
        (s', effs) \<Rightarrow> (s', ConsoleError # effs))"

subsection \<open>Events\<close>

text \<open>
  The events the component reacts to. The two buttons call the \<open>startConversation\<close> of the
  current render and \<open>stopConversation\<close>; unmounting runs the cleanup of \<open>useEffect\<close>, which
  is \<open>stopConversation\<close>.
\<close>

datatype event =
    StartClick start_outcome
  | StopClick
  | Open frame
  | Message readings live_server_message
  | Ended source_node
  | Close
  | TransportError
  | AnimationFrame frame
  | Unmount

fun handle_event :: "event \<Rightarrow> component \<Rightarrow> component \<times> effect list" where
  "handle_event (StartClick out) s = startConversation (render_of s) out s"
| "handle_event StopClick s = stopConversation s"
| "handle_event (Open f) s = onopen f s"
| "handle_event (Message r m) s = onmessage r m s"
| "handle_event (Ended n) s = onended n s"
| "handle_event Close s = onclose s"
| "handle_event TransportError s = onerror s"
| "handle_event (AnimationFrame f) s = visualize f s"
| "handle_event Unmount s = stopConversation s"

text \<open>
  What the browser can deliver: \<open>requestAnimationFrame\<close> returns a handle greater than zero,
  and neither the clock of an audio context nor the duration of a buffer is negative.
\<close>

fun deliverable :: "event \<Rightarrow> bool" where
  "deliverable (Open f) = (0 < handle f)"
| "deliverable (AnimationFrame f) = (0 < handle f)"
| "deliverable (Message r m) = (0 \<le> currentTime r \<and> 0 \<le> duration r)"
| "deliverable _ = True"

text \<open>
  The events inside a session, from its start on, and those that carry the interruption flag.
\<close>

fun withinSession :: "event \<Rightarrow> bool" where
  "withinSession (StartClick out) = False"
| "withinSession _ = True"

fun interrupts :: "event \<Rightarrow> bool" where
  "interrupts (Message r m) = interruptedOf m"
| "interrupts _ = False"

inductive reachable :: "component \<Rightarrow> bool" where
  reachable_initial: "reachable initial"
| reachable_step: "reachable s \<Longrightarrow> deliverable e \<Longrightarrow> reachable (fst (handle_event e s))"

text \<open>
  What every reachable state satisfies: source nodes are held only while an output context
  is, a held output context is not closed, and the animation handle is never 0.
\<close>

definition sound :: "component \<Rightarrow> bool" where
  "sound s =
     ((isOpen (outputAudioContextRef s) \<or> outputAudioContextRef s = None \<and> sourcesRef s = [])
      \<and> animationFrameRef s \<noteq> Some 0)"

text \<open>
  The events that end in a teardown: the stop button, a remote close, a transport error,
  unmounting, and a start whose \<open>try\<close> block failed. \<open>heldStream\<close> is the microphone stream the component
  holds when that teardown begins.
\<close>

fun tearsDown :: "event \<Rightarrow> component \<Rightarrow> bool" where
  "tearsDown StopClick s = True"
| "tearsDown Close s = True"
| "tearsDown TransportError s = True"
| "tearsDown Unmount s = True"
| "tearsDown (StartClick GetUserMediaRejected) s = (conversationState s = Idle)"
| "tearsDown (StartClick (ThrewAfterStream stream)) s = (conversationState s = Idle)"
| "tearsDown _ s = False"

fun heldStream :: "event \<Rightarrow> component \<Rightarrow> media_stream option" where
  "heldStream (StartClick (ThrewAfterStream stream)) s = Some stream"
| "heldStream e s = mediaStreamRef s"

text \<open>Every resource the component can hold is given up.\<close>

definition released :: "component \<Rightarrow> bool" where
  "released s =
     (sourcesRef s = [] \<and> sessionPromiseRef s = None \<and> mediaStreamRef s = None
      \<and> scriptProcessorRef s = None \<and> audioContextRef s = None
      \<and> outputAudioContextRef s = None \<and> animationFrameRef s = None)"

fun run :: "event list \<Rightarrow> component \<Rightarrow> component \<times> effect list" where
  "run [] s = (s, [])"
| "run (e # es) s =
     (case handle_event e s of
        (s1, e1) \<Rightarrow> (case run es s1 of (s2, e2) \<Rightarrow> (s2, e1 @ e2)))"

text \<open>Messages delivered one after another to a message handler, each with its readings.\<close>

fun deliver ::
  "(readings \<Rightarrow> live_server_message \<Rightarrow> component \<Rightarrow> component \<times> effect list)
    \<Rightarrow> (readings \<times> live_server_message) list \<Rightarrow> component \<Rightarrow> component \<times> effect list" where
  "deliver h [] s = (s, [])"
| "deliver h ((r, m) # ms) s =
     (case h r m s of
        (s1, e1) \<Rightarrow> (case deliver h ms s1 of (s2, e2) \<Rightarrow> (s2, e1 @ e2)))"

text \<open>
  A delivered message that is an audio chunk, one that carries no audio, and one without the
  interruption flag.
\<close>

definition isChunk :: "readings \<times> live_server_message \<Rightarrow> bool" where
  "isChunk x = hasAudio (snd x)"

definition carriesNoAudio :: "readings \<times> live_server_message \<Rightarrow> bool" where
  "carriesNoAudio x = (\<not> hasAudio (snd x))"

definition notInterrupted :: "readings \<times> live_server_message \<Rightarrow> bool" where
  "notInterrupted x = (\<not> interruptedOf (snd x))"

text \<open>The audio chunks among the delivered messages, in arrival order.\<close>

definition chunksOf :: "(readings \<times> live_server_message) list \<Rightarrow> (readings \<times> live_server_message) list" where
  "chunksOf ms = filter isChunk ms"

text \<open>The start times handed to \<open>sourceNode.start\<close>, in the order of the calls.\<close>

fun startTimes :: "effect list \<Rightarrow> real list" where
  "startTimes [] = []"
| "startTimes (SourceStart n t # es) = t # startTimes es"
| "startTimes (_ # es) = startTimes es"

subsection \<open>The close callback after the teardown's own close\<close>



subsection \<open>The other reset of the playback clock\<close>

text \<open>
  The specification allows the interruption to reset \<open>nextPlaybackTime\<close> "to 0 (or to
  current clock time)". The source resets to 0; this is the handler with the other choice.
\<close>

definition onInterrupted_clock :: "readings \<Rightarrow> live_server_message \<Rightarrow> component \<Rightarrow> component \<times> effect list" where
  "onInterrupted_clock r m s =
     (if interruptedOf m
      then (s\<lparr>sourcesRef := [], nextStartTimeRef := currentTime r\<rparr>, map SourceStop (sourcesRef s))
      else (s, []))"

definition onModelTurn_clock :: "readings \<Rightarrow> live_server_message \<Rightarrow> component \<Rightarrow> component \<times> effect list" where
  "onModelTurn_clock r m s =
     (case base64Audio m of
        Inl e \<Rightarrow> (s, [Throw e])
      | Inr b \<Rightarrow> andThen (onAudio r m) (onInterrupted_clock r m) s)"

definition onmessage_clock :: "readings \<Rightarrow> live_server_message \<Rightarrow> component \<Rightarrow> component \<times> effect list" where
  "onmessage_clock r m =
     andThen (onInputTranscription m)
    (andThen (onOutputTranscription m)
    (andThen (onTurnComplete m)
             (onModelTurn_clock r m)))"

text \<open>Clock readings that are not negative and do not go back, from \<open>t\<close> on.\<close>

fun clockFrom :: "real \<Rightarrow> (readings \<times> live_server_message) list \<Rightarrow> bool" where
  "clockFrom t [] = True"
| "clockFrom t ((r, m) # ms) = (t \<le> currentTime r \<and> clockFrom (currentTime r) ms)"

section \<open>The capture pipeline: createBlob\<close>

text \<open>
  A sample is a JavaScript number read from a \<open>Float32Array\<close>. Scaling a float by
  \<open>32768 = 2^15\<close> is exact in double precision, so the product is the product of the reals.
\<close>

datatype number = Finite real | NaN | PosInfinity | NegInfinity

fun js_times :: "number \<Rightarrow> real \<Rightarrow> number" where
  "js_times (Finite x) c = Finite (x * c)"
| "js_times n c = n"

text \<open>
  Storing a number into an \<open>Int16Array\<close> is the conversion \<open>ToInt16\<close>: \<open>NaN\<close> and the
  infinities become 0, any other number is truncated towards zero and taken modulo \<open>2^16\<close>.
\<close>

definition js_truncate :: "real \<Rightarrow> int" where
  "js_truncate x = (if 0 \<le> x then \<lfloor>x\<rfloor> else \<lceil>x\<rceil>)"

fun ToInt16 :: "number \<Rightarrow> 16 word" where
  "ToInt16 (Finite x) = word_of_int (js_truncate x)"
| "ToInt16 _ = 0"

function createBlob_loop :: "nat \<Rightarrow> number list \<Rightarrow> 16 word list \<Rightarrow> 16 word list" where
  "createBlob_loop i data int16 =
     (if i < length data
      then createBlob_loop (Suc i) data (int16[i := ToInt16 (js_times (data ! i) 32768)])
      else int16)"
  by pat_completeness auto
termination
  by (relation "measure (\<lambda>(i, data, int16). length data - i)") auto

text \<open>\<open>new Uint8Array(int16.buffer)\<close>: the two bytes of every sample, low byte first.\<close>

definition bytesOf :: "16 word list \<Rightarrow> 8 word list" where
  "bytesOf ws = concat (map (\<lambda>w. [ucast w, ucast (drop_bit 8 w)]) ws)"

text \<open>
  \<open>encode\<close> (utils/audioUtils, the base64 encoder) is not part of the sources at hand and is a
  parameter.
\<close>

text \<open>Lines 8 to 12 of \<open>createBlob\<close>: the array after the loop.\<close>

definition int16Of :: "number list \<Rightarrow> 16 word list" where
  "int16Of data = (let l = length data in createBlob_loop 0 data (replicate l 0))"

definition createBlob :: "(8 word list \<Rightarrow> string) \<Rightarrow> number list \<Rightarrow> blob" where
  "createBlob encode data =
     \<lparr>blob_data = encode (bytesOf (int16Of data)), mimeType = ''audio/pcm;rate=16000''\<rparr>"

text \<open>The \<open>onaudioprocess\<close> callback: the block is sent if a session promise is held.\<close>

definition onaudioprocess :: "(8 word list \<Rightarrow> string) \<Rightarrow> number list \<Rightarrow> component \<Rightarrow> component \<times> effect list" where
  "onaudioprocess encode inputData s =
     (let pcmBlob = createBlob encode inputData
      in case sessionPromiseRef s of
           None \<Rightarrow> (s, [])
         | Some p \<Rightarrow> (s, [SendRealtimeInput p pcmBlob]))"

text \<open>What a 16-bit signed sample holds for an integer: the integer modulo \<open>2^16\<close>, signed.\<close>

definition wrap16 :: "int \<Rightarrow> int" where
  "wrap16 k = (k + 32768) mod 65536 - 32768"

text \<open>A block with a sample inside the range, the sample 1, one below -1, and \<open>NaN\<close>.\<close>

definition block :: "number list" where
  "block = [Finite (1 / 2), Finite 1, Finite (- 3 / 2), NaN]"

section \<open>The schedule in closed form\<close>

text \<open>
  What \<open>max(nextStartTime, currentTime)\<close> followed by \<open>nextStartTime += duration\<close> yields
  for a run of chunks, from the value \<open>n\<close> of \<open>nextStartTimeRef\<close> on.
\<close>

fun scheduled :: "real \<Rightarrow> readings list \<Rightarrow> real list" where
  "scheduled n [] = []"
| "scheduled n (r # rs) = max n (currentTime r) # scheduled (max n (currentTime r) + duration r) rs"

section \<open>Example inputs\<close>

text \<open>Messages and event sequences at which the theorems below are evaluated.\<close>

definition chunk :: live_server_message where
  "chunk = \<lparr>serverContent = Some \<lparr>inputTranscription = None, outputTranscription = None,
      turnComplete = False,
      modelTurn = Some \<lparr>parts = Some [\<lparr>inlineData = Some \<lparr>base64 = Some ''AAAA''\<rparr>\<rparr>]\<rparr>,
      interrupted = False\<rparr>\<rparr>"

definition noContent :: server_content where
  "noContent = \<lparr>inputTranscription = None, outputTranscription = None, turnComplete = False,
      modelTurn = None, interrupted = False\<rparr>"

definition interruption :: live_server_message where
  "interruption = \<lparr>serverContent = Some (noContent\<lparr>interrupted := True\<rparr>)\<rparr>"

definition turnEnd :: live_server_message where
  "turnEnd = \<lparr>serverContent = Some (noContent\<lparr>turnComplete := True\<rparr>)\<rparr>"

definition heard :: "string \<Rightarrow> live_server_message" where
  "heard t = \<lparr>serverContent =
      Some (noContent\<lparr>inputTranscription := Some \<lparr>transcript_text = Some t\<rparr>\<rparr>)\<rparr>"

definition said :: "string \<Rightarrow> live_server_message" where
  "said t = \<lparr>serverContent =
      Some (noContent\<lparr>outputTranscription := Some \<lparr>transcript_text = Some t\<rparr>\<rparr>)\<rparr>"

text \<open>
  Two runs of chunks: in \<open>underrun\<close> the second chunk arrives four seconds after the first
  has played out; in \<open>onTime\<close> every chunk arrives before the one before it ends, with a
  transcript and a turn completion between the chunks.
\<close>

definition underrun :: "(readings \<times> live_server_message) list" where
  "underrun = [(\<lparr>currentTime = 0, duration = 1\<rparr>, chunk),
               (\<lparr>currentTime = 5, duration = 1\<rparr>, chunk)]"

definition onTime :: "(readings \<times> live_server_message) list" where
  "onTime = [(\<lparr>currentTime = 0, duration = 1\<rparr>, chunk),
             (\<lparr>currentTime = 1 / 4, duration = 0\<rparr>, heard ''hi''),
             (\<lparr>currentTime = 1 / 2, duration = 2\<rparr>, chunk),
             (\<lparr>currentTime = 2, duration = 0\<rparr>, turnEnd),
             (\<lparr>currentTime = 3, duration = 1\<rparr>, chunk)]"

text \<open>An interruption at clock time 2, then two chunks of one second.\<close>

definition bargeIn :: "(readings \<times> live_server_message) list" where
  "bargeIn = [(\<lparr>currentTime = 2, duration = 0\<rparr>, interruption),
              (\<lparr>currentTime = 4, duration = 1\<rparr>, chunk),
              (\<lparr>currentTime = 9 / 2, duration = 1\<rparr>, chunk)]"

text \<open>A session that was started and opened.\<close>

definition opened :: component where
  "opened = fst (run [StartClick (Connected [0, 1] 7),
                      Open \<lparr>visualizerMounted = True, handle = 3\<rparr>] initial)"

text \<open>
  A message with the interruption flag whose \<open>modelTurn\<close> has no \<open>parts\<close>, and a session that
  has scheduled one chunk of ten seconds at clock time 0.
\<close>

definition interruptionNoParts :: live_server_message where
  "interruptionNoParts =
     \<lparr>serverContent = Some (noContent\<lparr>modelTurn := Some \<lparr>parts = None\<rparr>, interrupted := True\<rparr>)\<rparr>"

definition playingLong :: component where
  "playingLong = fst (run [StartClick (Connected [0, 1] 7),
                           Open \<lparr>visualizerMounted = True, handle = 3\<rparr>,
                           Message \<lparr>currentTime = 0, duration = 10\<rparr> chunk] initial)"

text \<open>A session that was started, opened and has scheduled one chunk of one second.\<close>

definition playing :: component where
  "playing = fst (run [StartClick (Connected [0, 1] 7),
                       Open \<lparr>visualizerMounted = True, handle = 3\<rparr>,
                       Message \<lparr>currentTime = 0, duration = 1\<rparr> chunk] initial)"

section \<open>Lemmas about the handlers\<close>

subsection \<open>stopConversation\<close>

lemma fst_andThen: "fst (andThen f g s) = fst (g (fst (f s)))"
  by (simp add: andThen_def split: prod.split)

lemma snd_andThen: "snd (andThen f g s) = snd (f s) @ snd (g (fst (f s)))"
  by (simp add: andThen_def split: prod.split)

lemma fst_stopAnimationFrame:
  "fst (stopAnimationFrame s) =
     s\<lparr>animationFrameRef := (if animationFrameRef s = Some 0 then Some 0 else None)\<rparr>"
  by (simp add: stopAnimationFrame_def split: option.split)

lemma snd_stopAnimationFrame:
  "snd (stopAnimationFrame s) =
     (case animationFrameRef s of None \<Rightarrow> [] | Some h \<Rightarrow> if h \<noteq> 0 then [CancelAnimationFrame h] else [])"
  by (simp add: stopAnimationFrame_def split: option.split)

lemma fst_stopSession: "fst (stopSession s) = s\<lparr>sessionPromiseRef := None\<rparr>"
  by (simp add: stopSession_def split: option.split)

lemma snd_stopSession:
  "snd (stopSession s) = (case sessionPromiseRef s of None \<Rightarrow> [] | Some p \<Rightarrow> [SessionClose p])"
  by (simp add: stopSession_def split: option.split)

lemma fst_stopMediaStream: "fst (stopMediaStream s) = s\<lparr>mediaStreamRef := None\<rparr>"
  by (simp add: stopMediaStream_def split: option.split)

lemma snd_stopMediaStream:
  "snd (stopMediaStream s) = (case mediaStreamRef s of None \<Rightarrow> [] | Some stream \<Rightarrow> map TrackStop stream)"
  by (simp add: stopMediaStream_def split: option.split)

lemma fst_stopScriptProcessor: "fst (stopScriptProcessor s) = s\<lparr>scriptProcessorRef := None\<rparr>"
  by (simp add: stopScriptProcessor_def split: option.split)

lemma snd_stopScriptProcessor:
  "snd (stopScriptProcessor s) = (case scriptProcessorRef s of None \<Rightarrow> [] | Some _ \<Rightarrow> [ScriptProcessorDisconnect])"
  by (simp add: stopScriptProcessor_def split: option.split)

lemma fst_stopAudioContext: "fst (stopAudioContext s) = s\<lparr>audioContextRef := None\<rparr>"
  by (simp add: stopAudioContext_def)

lemma snd_stopAudioContext:
  "snd (stopAudioContext s) =
     (if isOpen (audioContextRef s) then [AudioContextClose InputContext] else [])"
  by (simp add: stopAudioContext_def)

lemma fst_stopOutputAudioContext:
  "fst (stopOutputAudioContext s) =
     s\<lparr>sourcesRef := (if isOpen (outputAudioContextRef s) then [] else sourcesRef s),
       outputAudioContextRef := None\<rparr>"
  by (simp add: stopOutputAudioContext_def)

lemma snd_stopOutputAudioContext:
  "snd (stopOutputAudioContext s) =
     (if isOpen (outputAudioContextRef s)
      then map SourceStop (sourcesRef s) @ [AudioContextClose OutputContext] else [])"
  by (simp add: stopOutputAudioContext_def)

lemma fst_setConversationState: "fst (setConversationState c s) = s\<lparr>conversationState := c\<rparr>"
  by (simp add: setConversationState_def)

lemma snd_setConversationState: "snd (setConversationState c s) = []"
  by (simp add: setConversationState_def)

lemmas stop_fst = fst_andThen fst_stopAnimationFrame fst_stopSession fst_stopMediaStream
  fst_stopScriptProcessor fst_stopAudioContext fst_stopOutputAudioContext fst_setConversationState

lemmas stop_snd = snd_andThen snd_stopAnimationFrame snd_stopSession snd_stopMediaStream
  snd_stopScriptProcessor snd_stopAudioContext snd_stopOutputAudioContext snd_setConversationState

lemma stop_state:
  "fst (stopConversation s) =
     s\<lparr>animationFrameRef := (if animationFrameRef s = Some 0 then Some 0 else None),
       sessionPromiseRef := None, mediaStreamRef := None, scriptProcessorRef := None,
       audioContextRef := None,
       sourcesRef := (if isOpen (outputAudioContextRef s) then [] else sourcesRef s),
       outputAudioContextRef := None, conversationState := Idle\<rparr>"
  by (simp add: stopConversation_def stop_fst)

lemma stop_effects:
  "snd (stopConversation s) =
     (case animationFrameRef s of None \<Rightarrow> [] | Some h \<Rightarrow> if h \<noteq> 0 then [CancelAnimationFrame h] else [])
     @ (case sessionPromiseRef s of None \<Rightarrow> [] | Some p \<Rightarrow> [SessionClose p])
     @ (case mediaStreamRef s of None \<Rightarrow> [] | Some stream \<Rightarrow> map TrackStop stream)
     @ (case scriptProcessorRef s of None \<Rightarrow> [] | Some _ \<Rightarrow> [ScriptProcessorDisconnect])
     @ (if isOpen (audioContextRef s) then [AudioContextClose InputContext] else [])
     @ (if isOpen (outputAudioContextRef s)
        then map SourceStop (sourcesRef s) @ [AudioContextClose OutputContext] else [])"
  by (simp add: stopConversation_def stop_fst stop_snd)

lemma isOpen_None: "isOpen None = False"
  by (simp add: isOpen_def)

lemma stop_twice_effects: "snd (stopConversation (fst (stopConversation s))) = []"
  by (simp add: stop_effects stop_state isOpen_None)

lemma stop_twice_state: "fst (stopConversation (fst (stopConversation s))) = fst (stopConversation s)"
  by (simp add: stop_state isOpen_None)

lemma sound_isOpen: "sound s \<Longrightarrow> \<not> isOpen (outputAudioContextRef s) \<Longrightarrow> sourcesRef s = []"
  by (auto simp: sound_def)

lemma stop_sourcesRef: "sound s \<Longrightarrow> sourcesRef (fst (stopConversation s)) = []"
  by (simp add: stop_state sound_isOpen)

lemma stop_sound: "sound s \<Longrightarrow> sound (fst (stopConversation s))"
  by (auto simp: stop_state sound_def isOpen_None)

lemma stop_SourceStop:
  assumes "sound s" "n \<in> set (sourcesRef s)"
  shows "SourceStop n \<in> set (snd (stopConversation s))"
proof -
  from assms have "isOpen (outputAudioContextRef s)"
    using sound_isOpen by fastforce
  with assms(2) show ?thesis
    by (simp add: stop_effects)
qed

lemma stop_TrackStop:
  "mediaStreamRef s = Some stream \<Longrightarrow> t \<in> set stream \<Longrightarrow> TrackStop t \<in> set (snd (stopConversation s))"
  by (simp add: stop_effects)

subsection \<open>onmessage\<close>

lemma fst_onInputTranscription:
  "fst (onInputTranscription m s) =
     s\<lparr>currentTranscription :=
         (case inputTranscriptionOf m of
            None \<Rightarrow> currentTranscription s
          | Some t \<Rightarrow> (currentTranscription s)
               \<lparr>user := user (currentTranscription s) @ js_text (transcript_text t)\<rparr>)\<rparr>"
  by (simp add: onInputTranscription_def split: option.split)

lemma snd_onInputTranscription: "snd (onInputTranscription m s) = []"
  by (simp add: onInputTranscription_def split: option.split)

lemma fst_onOutputTranscription:
  "fst (onOutputTranscription m s) =
     s\<lparr>currentTranscription :=
         (case outputTranscriptionOf m of
            None \<Rightarrow> currentTranscription s
          | Some t \<Rightarrow> (currentTranscription s)
               \<lparr>model := model (currentTranscription s) @ js_text (transcript_text t)\<rparr>)\<rparr>"
  by (simp add: onOutputTranscription_def split: option.split)

lemma snd_onOutputTranscription: "snd (onOutputTranscription m s) = []"
  by (simp add: onOutputTranscription_def split: option.split)

lemma onTurnComplete_yes:
  "turnCompleteOf m \<Longrightarrow> onTurnComplete m s =
     (s\<lparr>transcriptions := transcriptions s @ [closedOver s],
        currentTranscription := emptyTranscription\<rparr>, [])"
  by (simp add: onTurnComplete_def)

lemma onTurnComplete_no: "\<not> turnCompleteOf m \<Longrightarrow> onTurnComplete m s = (s, [])"
  by (simp add: onTurnComplete_def)

lemma onAudio_yes:
  "scheduling m s \<Longrightarrow> onAudio r m s =
     (s\<lparr>nextStartTimeRef := max (nextStartTimeRef s) (currentTime r) + duration r,
        sourcesRef := set_add (created s) (sourcesRef s),
        created := Suc (created s)\<rparr>,
      [SourceStart (created s) (max (nextStartTimeRef s) (currentTime r))])"
  by (simp add: onAudio_def Let_def)

lemma onAudio_no: "\<not> scheduling m s \<Longrightarrow> onAudio r m s = (s, [])"
  by (simp add: onAudio_def)

lemma onInterrupted_yes:
  "interruptedOf m \<Longrightarrow> onInterrupted m s =
     (s\<lparr>sourcesRef := [], nextStartTimeRef := 0\<rparr>, map SourceStop (sourcesRef s))"
  by (simp add: onInterrupted_def)

lemma onInterrupted_no: "\<not> interruptedOf m \<Longrightarrow> onInterrupted m s = (s, [])"
  by (simp add: onInterrupted_def)

lemma scheduling_frame:
  "scheduling m (s\<lparr>currentTranscription := c\<rparr>) = scheduling m s"
  "scheduling m (s\<lparr>transcriptions := t\<rparr>) = scheduling m s"
  by (simp_all add: scheduling_def)

lemma onModelTurn_rejects: "rejects m \<Longrightarrow> onModelTurn r m s = (s, [Throw TypeError])"
  by (cases "base64Audio m") (auto simp: onModelTurn_def rejects_def intro: js_error.exhaust)

lemma onModelTurn_returns:
  "\<not> rejects m \<Longrightarrow> onModelTurn r m s = andThen (onAudio r m) (onInterrupted m) s"
  by (cases "base64Audio m") (simp_all add: onModelTurn_def rejects_def)

lemma rejects_not_hasAudio: "rejects m \<Longrightarrow> \<not> hasAudio m"
  by (cases "base64Audio m") (simp_all add: rejects_def hasAudio_def)

lemma rejects_not_scheduling: "rejects m \<Longrightarrow> \<not> scheduling m s"
  by (simp add: scheduling_def rejects_not_hasAudio)

lemmas onmessage_simps = onmessage_def fst_andThen snd_andThen
  fst_onInputTranscription snd_onInputTranscription fst_onOutputTranscription snd_onOutputTranscription
  onTurnComplete_yes onTurnComplete_no onModelTurn_rejects onModelTurn_returns
  onAudio_yes onAudio_no onInterrupted_yes onInterrupted_no
  scheduling_frame rejects_not_scheduling resets_def

lemma onmessage_nextStartTimeRef:
  "nextStartTimeRef (fst (onmessage r m s)) =
     (if resets m then 0
      else if scheduling m s then max (nextStartTimeRef s) (currentTime r) + duration r
      else nextStartTimeRef s)"
  by (cases "rejects m"; cases "turnCompleteOf m"; cases "scheduling m s"; cases "interruptedOf m")
     (simp_all add: onmessage_simps)

lemma onmessage_sourcesRef:
  "sourcesRef (fst (onmessage r m s)) =
     (if resets m then []
      else if scheduling m s then set_add (created s) (sourcesRef s)
      else sourcesRef s)"
  by (cases "rejects m"; cases "turnCompleteOf m"; cases "scheduling m s"; cases "interruptedOf m")
     (simp_all add: onmessage_simps)

lemma onmessage_effects:
  "snd (onmessage r m s) =
     (if rejects m then [Throw TypeError]
      else (if scheduling m s
            then [SourceStart (created s) (max (nextStartTimeRef s) (currentTime r))] else [])
        @ (if interruptedOf m
           then map SourceStop (if scheduling m s then set_add (created s) (sourcesRef s)
                                else sourcesRef s)
           else []))"
  by (cases "rejects m"; cases "turnCompleteOf m"; cases "scheduling m s"; cases "interruptedOf m")
     (simp_all add: onmessage_simps)

lemma onmessage_unchanged:
  "outputAudioContextRef (fst (onmessage r m s)) = outputAudioContextRef s"
  "animationFrameRef (fst (onmessage r m s)) = animationFrameRef s"
  "closedOver (fst (onmessage r m s)) = closedOver s"
  "conversationState (fst (onmessage r m s)) = conversationState s"
  by (cases "rejects m"; cases "turnCompleteOf m"; cases "scheduling m s"; cases "interruptedOf m";
      simp add: onmessage_simps)+

lemma onmessage_transcriptions:
  "transcriptions (fst (onmessage r m s)) =
     (if turnCompleteOf m then transcriptions s @ [closedOver s] else transcriptions s)"
  by (cases "rejects m"; cases "turnCompleteOf m"; cases "scheduling m s"; cases "interruptedOf m")
     (simp_all add: onmessage_simps)

lemma onmessage_currentTranscription_turnComplete:
  "turnCompleteOf m \<Longrightarrow> currentTranscription (fst (onmessage r m s)) = emptyTranscription"
  by (cases "rejects m"; cases "scheduling m s"; cases "interruptedOf m")
     (simp_all add: onmessage_simps)

lemma startTimes_append: "startTimes (xs @ ys) = startTimes xs @ startTimes ys"
  by (induction xs rule: startTimes.induct) simp_all

lemma startTimes_SourceStop: "startTimes (map SourceStop ns) = []"
  by (induction ns) simp_all

lemma onmessage_startTimes:
  "startTimes (snd (onmessage r m s)) =
     (if scheduling m s then [max (nextStartTimeRef s) (currentTime r)] else [])"
  by (simp add: onmessage_effects startTimes_append startTimes_SourceStop rejects_not_scheduling)

lemma scheduling_onmessage:
  "scheduling m' (fst (onmessage r m s)) = scheduling m' s"
  by (simp add: scheduling_def onmessage_unchanged)

lemma not_scheduling_None: "outputAudioContextRef s = None \<Longrightarrow> \<not> scheduling m s"
  by (simp add: scheduling_def)

lemma onmessage_sound: "sound s \<Longrightarrow> sound (fst (onmessage r m s))"
  by (auto simp: sound_def onmessage_unchanged onmessage_sourcesRef not_scheduling_None)

subsection \<open>The invariant of reachable states\<close>

lemma catchStart_state: "fst (catchStart s) = fst (stopConversation (s\<lparr>conversationState := Error\<rparr>))"
  by (simp add: catchStart_def split: prod.split)

lemma catchStart_effects:
  "snd (catchStart s) = ConsoleError # snd (stopConversation (s\<lparr>conversationState := Error\<rparr>))"
  by (simp add: catchStart_def split: prod.split)

lemma onerror_state: "fst (onerror s) = fst (stopConversation (s\<lparr>conversationState := Error\<rparr>))"
  by (simp add: onerror_def split: prod.split)

lemma onerror_effects:
  "snd (onerror s) = ConsoleError # snd (stopConversation (s\<lparr>conversationState := Error\<rparr>))"
  by (simp add: onerror_def split: prod.split)

lemma startConversation_not_idle:
  "rendered_conversationState rd \<noteq> Idle \<Longrightarrow> startConversation rd out s = (s, [])"
  by (simp add: startConversation_def)

lemma startConversation_rejected:
  "rendered_conversationState rd = Idle \<Longrightarrow>
   startConversation rd GetUserMediaRejected s =
     (fst (catchStart (s\<lparr>conversationState := Connecting, transcriptions := [],
                        currentTranscription := emptyTranscription\<rparr>)),
      GetUserMedia # snd (catchStart (s\<lparr>conversationState := Connecting, transcriptions := [],
                        currentTranscription := emptyTranscription\<rparr>)))"
  by (simp add: startConversation_def split: prod.split)

lemma startConversation_threw:
  "rendered_conversationState rd = Idle \<Longrightarrow>
   startConversation rd (ThrewAfterStream stream) s =
     (fst (catchStart (s\<lparr>conversationState := Connecting, transcriptions := [],
                        currentTranscription := emptyTranscription, mediaStreamRef := Some stream\<rparr>)),
      GetUserMedia # snd (catchStart (s\<lparr>conversationState := Connecting, transcriptions := [],
                        currentTranscription := emptyTranscription, mediaStreamRef := Some stream\<rparr>)))"
  by (simp add: startConversation_def split: prod.split)

lemma startConversation_connected:
  "rendered_conversationState rd = Idle \<Longrightarrow>
   startConversation rd (Connected stream p) s =
     (s\<lparr>conversationState := Connecting, transcriptions := [],
        currentTranscription := emptyTranscription,
        mediaStreamRef := Some stream,
        audioContextRef := Some newAudioContext,
        outputAudioContextRef := Some newAudioContext,
        nextStartTimeRef := 0,
        sessionPromiseRef := Some p,
        closedOver := rendered_currentTranscription rd\<rparr>,
      [GetUserMedia, Connect p])"
  by (simp add: startConversation_def)

lemma startConversation_sound:
  assumes "sound s"
  shows "sound (fst (startConversation rd out s))"
proof (cases "rendered_conversationState rd = Idle")
  case False
  with assms show ?thesis by (simp add: startConversation_not_idle)
next
  case True
  show ?thesis
  proof (cases out)
    case GetUserMediaRejected
    have "sound (s\<lparr>conversationState := Connecting, transcriptions := [],
             currentTranscription := emptyTranscription, conversationState := Error\<rparr>)"
      using assms by (simp add: sound_def)
    then show ?thesis
      using True GetUserMediaRejected
      by (simp add: startConversation_rejected catchStart_state stop_sound)
  next
    case (ThrewAfterStream stream)
    have "sound (s\<lparr>conversationState := Connecting, transcriptions := [],
             currentTranscription := emptyTranscription, mediaStreamRef := Some stream,
             conversationState := Error\<rparr>)"
      using assms by (simp add: sound_def)
    then show ?thesis
      using True ThrewAfterStream
      by (simp add: startConversation_threw catchStart_state stop_sound)
  next
    case (Connected stream p)
    then show ?thesis
      using True assms
      by (simp add: startConversation_connected sound_def newAudioContext_def isOpen_def)
  qed
qed

lemma visualize_sound: "sound s \<Longrightarrow> 0 < handle f \<Longrightarrow> sound (fst (visualize f s))"
  by (auto simp: visualize_def sound_def)

lemma onopen_sound: "sound s \<Longrightarrow> 0 < handle f \<Longrightarrow> sound (fst (onopen f s))"
  by (auto simp: onopen_def Let_def visualize_def sound_def split: option.splits)

lemma onended_sound: "sound s \<Longrightarrow> sound (fst (onended n s))"
  by (auto simp: onended_def sound_def set_delete_def)

lemma onerror_sound: "sound s \<Longrightarrow> sound (fst (onerror s))"
proof -
  assume "sound s"
  then have "sound (s\<lparr>conversationState := Error\<rparr>)"
    by (simp add: sound_def)
  then show ?thesis
    by (simp add: onerror_state stop_sound)
qed

lemma handle_event_sound: "sound s \<Longrightarrow> deliverable e \<Longrightarrow> sound (fst (handle_event e s))"
  by (cases e)
     (simp_all add: startConversation_sound stop_sound onopen_sound onmessage_sound
        onended_sound onclose_def onerror_sound visualize_sound)

lemma initial_sound: "sound initial"
  by (simp add: sound_def initial_def)

lemma reachable_sound: "reachable s \<Longrightarrow> sound s"
  by (induction rule: reachable.induct) (simp_all add: initial_sound handle_event_sound)

lemma fst_run_Cons: "fst (run (e # es) s) = fst (run es (fst (handle_event e s)))"
  by (simp split: prod.split)

lemma snd_run_Cons:
  "snd (run (e # es) s) = snd (handle_event e s) @ snd (run es (fst (handle_event e s)))"
  by (simp split: prod.split)

lemma reachable_run: "reachable s \<Longrightarrow> list_all deliverable es \<Longrightarrow> reachable (fst (run es s))"
proof (induction es arbitrary: s)
  case Nil
  then show ?case by simp
next
  case (Cons e es)
  from Cons.prems have "reachable (fst (handle_event e s))"
    by (simp add: reachable_step)
  with Cons show ?case
    by (simp add: fst_run_Cons del: run.simps)
qed

subsection \<open>Stopping twice\<close>

lemma stop_twice: "stopConversation (fst (stopConversation s)) = (fst (stopConversation s), [])"
  by (simp add: prod_eq_iff stop_twice_state stop_twice_effects)

lemma stop_released: "sound s \<Longrightarrow> released (fst (stopConversation s))"
  by (auto simp: released_def stop_state sound_def)

lemma chunk_scheduling: "outputAudioContextRef s \<noteq> None \<Longrightarrow> scheduling chunk s"
  by (simp add: scheduling_def hasAudio_def chunk_def base64Audio_def truthy_def)

lemma playing_reachable: "reachable playing"
  unfolding playing_def by (rule reachable_run [OF reachable_initial]) simp

subsection \<open>Runs of chunks\<close>

lemma fst_deliver_Cons: "fst (deliver h ((r, m) # ms) s) = fst (deliver h ms (fst (h r m s)))"
  by (simp split: prod.split)

lemma snd_deliver_Cons:
  "snd (deliver h ((r, m) # ms) s) = snd (h r m s) @ snd (deliver h ms (fst (h r m s)))"
  by (simp split: prod.split)

lemma chunksOf_Cons:
  "chunksOf ((r, m) # ms) = (if hasAudio m then (r, m) # chunksOf ms else chunksOf ms)"
  by (simp add: chunksOf_def isChunk_def)

lemma deliver_scheduled:
  "outputAudioContextRef s \<noteq> None \<Longrightarrow> list_all notInterrupted ms \<Longrightarrow>
   startTimes (snd (deliver onmessage ms s))
     = scheduled (nextStartTimeRef s) (map fst (chunksOf ms))"
proof (induction ms arbitrary: s)
  case Nil
  then show ?case by (simp add: chunksOf_def)
next
  case (Cons x ms)
  obtain r m where x: "x = (r, m)" by (cases x)
  from Cons.prems x have ni: "\<not> resets m"
    by (simp add: notInterrupted_def resets_def)
  have "outputAudioContextRef (fst (onmessage r m s)) \<noteq> None"
    using Cons.prems(1) by (simp add: onmessage_unchanged)
  moreover have "list_all notInterrupted ms"
    using Cons.prems(2) by simp
  ultimately have rest: "startTimes (snd (deliver onmessage ms (fst (onmessage r m s)))) =
      scheduled (nextStartTimeRef (fst (onmessage r m s))) (map fst (chunksOf ms))"
    by (rule Cons.IH)
  show ?case
  proof (cases "hasAudio m")
    case True
    with Cons.prems(1) have "scheduling m s"
      by (simp add: scheduling_def)
    with rest ni x True show ?thesis
      by (simp add: snd_deliver_Cons startTimes_append onmessage_startTimes
            onmessage_nextStartTimeRef chunksOf_Cons del: deliver.simps)
  next
    case False
    then have "\<not> scheduling m s"
      by (simp add: scheduling_def)
    with rest ni x False show ?thesis
      by (simp add: snd_deliver_Cons startTimes_append onmessage_startTimes
            onmessage_nextStartTimeRef chunksOf_Cons del: deliver.simps)
  qed
qed

lemma length_scheduled: "length (scheduled n rs) = length rs"
  by (induction rs arbitrary: n) simp_all

lemma scheduled_lower:
  "k < length rs \<Longrightarrow> n + sum_list (take k (map duration rs)) \<le> scheduled n rs ! k"
proof (induction rs arbitrary: n k)
  case Nil
  then show ?case by simp
next
  case (Cons r rs)
  show ?case
  proof (cases k)
    case 0
    then show ?thesis by simp
  next
    case (Suc j)
    with Cons.prems have "j < length rs" by simp
    from Cons.IH [OF this, of "max n (currentTime r) + duration r"] Suc show ?thesis
      by simp
  qed
qed

lemma scheduled_exact:
  "k < length rs \<Longrightarrow> \<forall>j\<le>k. currentTime (rs ! j) \<le> n + sum_list (take j (map duration rs))
    \<Longrightarrow> scheduled n rs ! k = n + sum_list (take k (map duration rs))"
proof (induction rs arbitrary: n k)
  case Nil
  then show ?case by simp
next
  case (Cons r rs)
  from Cons.prems(2) have r0: "currentTime r \<le> n"
    by (auto dest: spec [of _ 0])
  show ?case
  proof (cases k)
    case 0
    with r0 show ?thesis by simp
  next
    case (Suc i)
    with Cons.prems have i: "i < length rs" by simp
    have "\<forall>j\<le>i. currentTime (rs ! j) \<le> (n + duration r) + sum_list (take j (map duration rs))"
    proof (intro allI impI)
      fix j assume "j \<le> i"
      with Suc Cons.prems(2) have "currentTime ((r # rs) ! Suc j)
          \<le> n + sum_list (take (Suc j) (map duration (r # rs)))"
        by (auto dest: spec [of _ "Suc j"])
      then show "currentTime (rs ! j) \<le> (n + duration r) + sum_list (take j (map duration rs))"
        by simp
    qed
    from Cons.IH [OF i this] r0 Suc show ?thesis
      by simp
  qed
qed

lemma scheduled_gapless:
  assumes "k < length rs"
  shows "scheduled n rs ! 0 + sum_list (take k (map duration rs)) \<le> scheduled n rs ! k"
    and "(\<forall>j. 0 < j \<and> j \<le> k \<longrightarrow>
            currentTime (rs ! j) \<le> scheduled n rs ! 0 + sum_list (take j (map duration rs)))
         \<Longrightarrow> scheduled n rs ! k = scheduled n rs ! 0 + sum_list (take k (map duration rs))"
proof -
  obtain r rs' where rs: "rs = r # rs'"
    using assms by (cases rs) auto
  let ?n = "max n (currentTime r) + duration r"
  show "scheduled n rs ! 0 + sum_list (take k (map duration rs)) \<le> scheduled n rs ! k"
  proof (cases k)
    case 0
    then show ?thesis by simp
  next
    case (Suc i)
    with assms rs have "i < length rs'" by simp
    from scheduled_lower [OF this, of ?n] rs Suc show ?thesis by simp
  qed
  assume late: "\<forall>j. 0 < j \<and> j \<le> k \<longrightarrow>
            currentTime (rs ! j) \<le> scheduled n rs ! 0 + sum_list (take j (map duration rs))"
  show "scheduled n rs ! k = scheduled n rs ! 0 + sum_list (take k (map duration rs))"
  proof (cases k)
    case 0
    then show ?thesis by simp
  next
    case (Suc i)
    with assms rs have i: "i < length rs'" by simp
    have "\<forall>j\<le>i. currentTime (rs' ! j) \<le> ?n + sum_list (take j (map duration rs'))"
    proof (intro allI impI)
      fix j assume "j \<le> i"
      with late Suc have "currentTime (rs ! Suc j)
          \<le> scheduled n rs ! 0 + sum_list (take (Suc j) (map duration rs))"
        by simp
      with rs show "currentTime (rs' ! j) \<le> ?n + sum_list (take j (map duration rs'))"
        by simp
    qed
    from scheduled_exact [OF i this] rs Suc show ?thesis by simp
  qed
qed

subsection \<open>The example sessions\<close>

lemma opened_fields:
  "outputAudioContextRef opened = Some newAudioContext"
  "nextStartTimeRef opened = 0"
  "closedOver opened = emptyTranscription"
  "conversationState opened = Listening"
  by code_simp+

lemma playing_fields:
  "sourcesRef playing = [0]"
  "mediaStreamRef playing = Some [0, 1]"
  "nextStartTimeRef playing = 1"
  "conversationState playing = Listening"
  "outputAudioContextRef playing = Some newAudioContext"
  by code_simp+

subsection \<open>Messages without audio\<close>

lemma deliver_quiet:
  "list_all carriesNoAudio ms \<Longrightarrow> nextStartTimeRef s = 0
    \<Longrightarrow> nextStartTimeRef (fst (deliver onmessage ms s)) = 0"
proof (induction ms arbitrary: s)
  case Nil
  then show ?case by simp
next
  case (Cons x ms)
  obtain r m where x: "x = (r, m)" by (cases x)
  from Cons.prems x have "\<not> scheduling m s"
    by (simp add: carriesNoAudio_def scheduling_def)
  with Cons.prems(2) have "nextStartTimeRef (fst (onmessage r m s)) = 0"
    by (simp add: onmessage_nextStartTimeRef)
  moreover from Cons.prems(1) have "list_all carriesNoAudio ms"
    by simp
  ultimately show ?case
    using Cons.IH x by (simp add: fst_deliver_Cons del: deliver.simps)
qed

text \<open>
  What the interruption block does when the handler gets to it: every source node of the set
  is stopped, the set is emptied and \<open>nextStartTimeRef\<close> is 0, so that the next chunk, with any
  messages without audio in between, starts at \<open>max 0 currentTime\<close> of its own arrival.
\<close>

lemma interruption_block:
  assumes "resets m" and "list_all carriesNoAudio quiet"
  shows "sourcesRef (fst (onmessage r m s)) = []
     \<and> nextStartTimeRef (fst (onmessage r m s)) = 0
     \<and> (\<forall>n \<in> set (sourcesRef s). SourceStop n \<in> set (snd (onmessage r m s)))
     \<and> (scheduling m' (fst (deliver onmessage ((r, m) # quiet) s)) \<longrightarrow>
          startTimes (snd (onmessage r' m' (fst (deliver onmessage ((r, m) # quiet) s))))
            = [max 0 (currentTime r')])"
proof -
  from assms(1) have int: "interruptedOf m" and ret: "\<not> rejects m"
    by (simp_all add: resets_def)
  have zero: "nextStartTimeRef (fst (onmessage r m s)) = 0"
    using assms(1) by (simp add: onmessage_nextStartTimeRef)
  have stopped: "SourceStop n \<in> set (snd (onmessage r m s))" if "n \<in> set (sourcesRef s)" for n
    using that int ret by (simp add: onmessage_effects set_add_def)
  have "nextStartTimeRef (fst (deliver onmessage ((r, m) # quiet) s)) = 0"
    using deliver_quiet [OF assms(2) zero] by (simp add: fst_deliver_Cons del: deliver.simps)
  then have "startTimes (snd (onmessage r' m' (fst (deliver onmessage ((r, m) # quiet) s))))
            = [max 0 (currentTime r')]"
    if "scheduling m' (fst (deliver onmessage ((r, m) # quiet) s))"
    using that by (simp add: onmessage_startTimes)
  with zero stopped assms(1) show ?thesis
    by (simp add: onmessage_sourcesRef)
qed

subsection \<open>The two resets of the clock\<close>

lemma onInterrupted_clock_yes:
  "interruptedOf m \<Longrightarrow> onInterrupted_clock r m s =
     (s\<lparr>sourcesRef := [], nextStartTimeRef := currentTime r\<rparr>, map SourceStop (sourcesRef s))"
  by (simp add: onInterrupted_clock_def)

lemma onInterrupted_clock_no: "\<not> interruptedOf m \<Longrightarrow> onInterrupted_clock r m s = (s, [])"
  by (simp add: onInterrupted_clock_def)

lemma scheduling_nextStartTimeRef:
  "scheduling m (s\<lparr>nextStartTimeRef := x\<rparr>) = scheduling m s"
  by (simp add: scheduling_def)

lemma onModelTurn_clock_rejects:
  "rejects m \<Longrightarrow> onModelTurn_clock r m s = (s, [Throw TypeError])"
  by (cases "base64Audio m") (auto simp: onModelTurn_clock_def rejects_def intro: js_error.exhaust)

lemma onModelTurn_clock_returns:
  "\<not> rejects m \<Longrightarrow> onModelTurn_clock r m s = andThen (onAudio r m) (onInterrupted_clock r m) s"
  by (cases "base64Audio m") (simp_all add: onModelTurn_clock_def rejects_def)

lemmas onmessage_clock_simps = onmessage_clock_def fst_andThen snd_andThen
  fst_onInputTranscription snd_onInputTranscription fst_onOutputTranscription snd_onOutputTranscription
  onTurnComplete_yes onTurnComplete_no onModelTurn_clock_rejects onModelTurn_clock_returns
  onAudio_yes onAudio_no
  onInterrupted_clock_yes onInterrupted_clock_no scheduling_frame scheduling_nextStartTimeRef

lemma onmessage_retimed:
  "fst (onmessage r m (a\<lparr>nextStartTimeRef := x\<rparr>)) =
     (fst (onmessage r m a))\<lparr>nextStartTimeRef :=
        (if resets m then 0
         else if scheduling m a then max x (currentTime r) + duration r else x)\<rparr>"
  by (cases "rejects m"; cases "turnCompleteOf m"; cases "scheduling m a"; cases "interruptedOf m")
     (simp_all add: onmessage_simps scheduling_nextStartTimeRef split: option.split)

lemma onmessage_clock_retimed:
  "fst (onmessage_clock r m (a\<lparr>nextStartTimeRef := x\<rparr>)) =
     (fst (onmessage r m a))\<lparr>nextStartTimeRef :=
        (if resets m then currentTime r
         else if scheduling m a then max x (currentTime r) + duration r else x)\<rparr>"
  by (cases "rejects m"; cases "turnCompleteOf m"; cases "scheduling m a"; cases "interruptedOf m")
     (simp_all add: onmessage_simps onmessage_clock_simps split: option.split)

lemma onmessage_effects_retimed:
  "snd (onmessage r m (a\<lparr>nextStartTimeRef := x\<rparr>)) =
     (if rejects m then [Throw TypeError]
      else (if scheduling m a then [SourceStart (created a) (max x (currentTime r))] else [])
        @ (if interruptedOf m
           then map SourceStop (if scheduling m a then set_add (created a) (sourcesRef a)
                                else sourcesRef a)
           else []))"
  by (simp add: onmessage_effects scheduling_nextStartTimeRef)

lemma onmessage_clock_effects: "snd (onmessage_clock r m s) = snd (onmessage r m s)"
  by (cases "rejects m"; cases "turnCompleteOf m"; cases "scheduling m s"; cases "interruptedOf m")
     (simp_all add: onmessage_simps onmessage_clock_simps)

lemma deliver_reset_choice:
  "clockFrom t ms \<Longrightarrow> 0 \<le> t \<Longrightarrow> x = y \<or> x \<le> t \<and> y \<le> t \<Longrightarrow>
   snd (deliver onmessage_clock ms (a\<lparr>nextStartTimeRef := y\<rparr>))
     = snd (deliver onmessage ms (a\<lparr>nextStartTimeRef := x\<rparr>))"
proof (induction ms arbitrary: t x y a)
  case Nil
  then show ?case by simp
next
  case (Cons p ms)
  obtain r m where p: "p = (r, m)" by (cases p)
  let ?c = "currentTime r"
  let ?x = "if resets m then 0 else if scheduling m a then max x ?c + duration r else x"
  let ?y = "if resets m then ?c else if scheduling m a then max y ?c + duration r else y"
  from Cons.prems p have t: "t \<le> ?c" and later: "clockFrom ?c ms"
    by simp_all
  with Cons.prems have c0: "0 \<le> ?c"
    by simp
  from Cons.prems(3) t have same: "max x ?c = max y ?c"
    by auto
  have head: "snd (onmessage_clock r m (a\<lparr>nextStartTimeRef := y\<rparr>))
      = snd (onmessage r m (a\<lparr>nextStartTimeRef := x\<rparr>))"
    by (simp add: onmessage_clock_effects onmessage_effects_retimed same)
  have close: "?x = ?y \<or> ?x \<le> ?c \<and> ?y \<le> ?c"
    using Cons.prems(3) t c0 same by auto
  have "snd (deliver onmessage_clock ms ((fst (onmessage r m a))\<lparr>nextStartTimeRef := ?y\<rparr>))
      = snd (deliver onmessage ms ((fst (onmessage r m a))\<lparr>nextStartTimeRef := ?x\<rparr>))"
    using later c0 close by (rule Cons.IH)
  with head p show ?case
    by (simp add: snd_deliver_Cons onmessage_retimed onmessage_clock_retimed del: deliver.simps)
qed

subsection \<open>createBlob\<close>

lemma createBlob_loop_eq:
  "i \<le> length data \<Longrightarrow> length int16 = length data \<Longrightarrow>
   createBlob_loop i data int16
     = take i int16 @ map (\<lambda>x. ToInt16 (js_times x 32768)) (drop i data)"
proof (induction i data int16 rule: createBlob_loop.induct)
  case (1 i data int16)
  show ?case
  proof (cases "i < length data")
    case True
    let ?v = "ToInt16 (js_times (data ! i) 32768)"
    from True "1.prems" have "createBlob_loop (Suc i) data (int16[i := ?v])
        = take (Suc i) (int16[i := ?v]) @ map (\<lambda>x. ToInt16 (js_times x 32768)) (drop (Suc i) data)"
      by (intro "1.IH") simp_all
    moreover have "take (Suc i) (int16[i := ?v]) = take i int16 @ [?v]"
      using True "1.prems" by (simp add: take_Suc_conv_app_nth)
    moreover have "drop i data = data ! i # drop (Suc i) data"
      using True by (simp add: Cons_nth_drop_Suc)
    ultimately show ?thesis
      using True by (subst createBlob_loop.simps) simp
  next
    case False
    with "1.prems" show ?thesis
      by (subst createBlob_loop.simps) simp
  qed
qed

lemma int16Of_map: "int16Of data = map (\<lambda>x. ToInt16 (js_times x 32768)) data"
  by (simp add: int16Of_def createBlob_loop_eq del: createBlob_loop.simps)

lemma sint_ToInt16: "sint (ToInt16 (Finite y)) = wrap16 (js_truncate y)"
  by (simp add: sint_sbintrunc' signed_take_bit_eq_take_bit_shift take_bit_eq_mod wrap16_def)

lemma js_truncate_range:
  assumes "- 1 \<le> x" and "x < 1"
  shows "- 32768 \<le> js_truncate (x * 32768)" and "js_truncate (x * 32768) < 32768"
proof -
  from assms have lo: "- 32768 \<le> x * 32768" and hi: "x * 32768 < 32768"
    by simp_all
  show "- 32768 \<le> js_truncate (x * 32768)"
    using lo by (simp add: js_truncate_def le_floor_iff le_ceiling_iff)
  show "js_truncate (x * 32768) < 32768"
    using hi by (simp add: js_truncate_def floor_less_iff ceiling_less_iff)
qed

lemma wrap16_id: "- 32768 \<le> k \<Longrightarrow> k < 32768 \<Longrightarrow> wrap16 k = k"
  by (simp add: wrap16_def)

lemma length_bytesOf: "length (bytesOf ws) = 2 * length ws"
  by (induction ws) (simp_all add: bytesOf_def)

lemma bytesOf_Cons: "bytesOf (w # ws) = ucast w # ucast (drop_bit 8 w) # bytesOf ws"
  by (simp add: bytesOf_def)

lemma bytesOf_nth:
  "i < length ws \<Longrightarrow>
   bytesOf ws ! (2 * i) = ucast (ws ! i) \<and> bytesOf ws ! (2 * i + 1) = ucast (drop_bit 8 (ws ! i))"
proof (induction ws arbitrary: i)
  case Nil
  then show ?case by simp
next
  case (Cons w ws)
  show ?case
  proof (cases i)
    case 0
    then show ?thesis by (simp add: bytesOf_Cons)
  next
    case (Suc j)
    with Cons.prems have "j < length ws" by simp
    from Cons.IH [OF this] Suc show ?thesis
      by (simp add: bytesOf_Cons)
  qed
qed

lemma two_bytes:
  fixes w :: "16 word"
  shows "uint (ucast w :: 8 word) + 256 * uint (ucast (drop_bit 8 w) :: 8 word) = uint w"
proof -
  have lo: "uint (ucast w :: 8 word) = uint w mod 256"
    by (simp add: unsigned_ucast_eq take_bit_eq_mod)
  have bound: "uint w < 65536"
    using uint_bounded [of w] by simp
  then have whole: "uint w mod 65536 = uint w"
    by simp
  have shifted: "uint (drop_bit 8 w) = uint w div 256"
    by (simp only: unsigned_drop_bit_eq) (simp add: drop_bit_eq_div take_bit_eq_mod whole)
  from bound have "uint w div 256 < 256"
    by simp
  moreover have "0 \<le> uint w div 256"
    by (simp add: pos_imp_zdiv_nonneg_iff)
  ultimately have "uint w div 256 mod 256 = uint w div 256"
    by simp
  with shifted have hi: "uint (ucast (drop_bit 8 w) :: 8 word) = uint w div 256"
    by (simp only: unsigned_ucast_eq) (simp add: take_bit_eq_mod)
  show ?thesis
    unfolding lo hi by simp
qed

lemma uint_ToInt16: "uint (ToInt16 (Finite y)) = js_truncate y mod 65536"
  by (simp add: uint_word_of_int)

section \<open>The claims\<close>

text \<open>
  Claim C1, as amended. Messages without the interruption flag are delivered while an output
  context is held; some are audio chunks, the others (transcripts, turn completions) may come
  anywhere between them. One source node is started per chunk. Chunk \<open>k\<close> never starts before
  the start of the first chunk plus the durations of the chunks before it, and it starts exactly
  then whenever every chunk from the second to the \<open>k\<close>-th arrived at a clock reading no later
  than the start of the first chunk plus the durations of the chunks before that one.
\<close>

theorem chunk_start_times:
  assumes "outputAudioContextRef s \<noteq> None" and "list_all notInterrupted ms"
    and "k < length (chunksOf ms)"
  shows "length (startTimes (snd (deliver onmessage ms s))) = length (chunksOf ms)
     \<and> startTimes (snd (deliver onmessage ms s)) ! 0
          + sum_list (take k (map (duration \<circ> fst) (chunksOf ms)))
         \<le> startTimes (snd (deliver onmessage ms s)) ! k
     \<and> ((\<forall>j. 0 < j \<and> j \<le> k \<longrightarrow>
            currentTime (fst (chunksOf ms ! j))
              \<le> startTimes (snd (deliver onmessage ms s)) ! 0
                 + sum_list (take j (map (duration \<circ> fst) (chunksOf ms))))
          \<longrightarrow> startTimes (snd (deliver onmessage ms s)) ! k
              = startTimes (snd (deliver onmessage ms s)) ! 0
                 + sum_list (take k (map (duration \<circ> fst) (chunksOf ms))))"
proof -
  let ?cs = "chunksOf ms"
  let ?rs = "map fst ?cs"
  let ?n = "nextStartTimeRef s"
  have ts: "startTimes (snd (deliver onmessage ms s)) = scheduled ?n ?rs"
    using assms(1,2) by (rule deliver_scheduled)
  have k: "k < length ?rs"
    using assms(3) by simp
  have ds: "map (duration \<circ> fst) ?cs = map duration ?rs"
    by simp
  have nth: "currentTime (fst (?cs ! j)) = currentTime (?rs ! j)" if "j \<le> k" for j
    using that assms(3) by simp
  have "length (scheduled ?n ?rs) = length ?cs"
    by (simp add: length_scheduled)
  moreover have "scheduled ?n ?rs ! 0 + sum_list (take k (map duration ?rs)) \<le> scheduled ?n ?rs ! k"
    using k by (rule scheduled_gapless(1))
  moreover have "scheduled ?n ?rs ! k = scheduled ?n ?rs ! 0 + sum_list (take k (map duration ?rs))"
    if "\<forall>j. 0 < j \<and> j \<le> k \<longrightarrow>
            currentTime (fst (?cs ! j)) \<le> scheduled ?n ?rs ! 0 + sum_list (take j (map duration ?rs))"
  proof (rule scheduled_gapless(2) [OF k])
    show "\<forall>j. 0 < j \<and> j \<le> k \<longrightarrow>
            currentTime (?rs ! j) \<le> scheduled ?n ?rs ! 0 + sum_list (take j (map duration ?rs))"
      using that nth by auto
  qed
  ultimately show ?thesis
    unfolding ts ds by blast
qed

text \<open>
  Claim C1 as stated, with arbitrary arrival times, fails: two chunks of one second, the
  second arriving at clock time 5, start at 0 and at 5, not at 0 and at 1.
\<close>

theorem chunk_start_times_counterexample:
  "startTimes (snd (deliver onmessage underrun opened)) ! 1
   \<noteq> startTimes (snd (deliver onmessage underrun opened)) ! 0
     + sum_list (take 1 (map (duration \<circ> fst) underrun))"
  by code_simp

text \<open>
  Claim C1, the amended statement at the run \<open>onTime\<close>, which has a transcript and a turn
  completion between its three chunks: the third chunk starts at the start of the first plus
  the two durations before it.
\<close>

theorem chunk_start_times_witness:
  "outputAudioContextRef opened \<noteq> None \<and> list_all notInterrupted onTime
   \<and> length (chunksOf onTime) = 3
   \<and> startTimes (snd (deliver onmessage onTime opened)) = [0, 1, 3]
   \<and> startTimes (snd (deliver onmessage onTime opened)) ! 2
     = startTimes (snd (deliver onmessage onTime opened)) ! 0
       + sum_list (take 2 (map (duration \<circ> fst) (chunksOf onTime)))"
proof -
  have a: "outputAudioContextRef opened \<noteq> None"
    by (simp add: opened_fields)
  have b: "list_all notInterrupted onTime"
    by code_simp
  have len: "length (chunksOf onTime) = 3"
    by code_simp
  then have c: "2 < length (chunksOf onTime)"
    by simp
  have ts: "startTimes (snd (deliver onmessage onTime opened)) = [0, 1, 3]"
    by code_simp
  have d1: "currentTime (fst (chunksOf onTime ! 1))
      \<le> 0 + sum_list (take 1 (map (duration \<circ> fst) (chunksOf onTime)))"
    by code_simp
  have d2: "currentTime (fst (chunksOf onTime ! 2))
      \<le> 0 + sum_list (take 2 (map (duration \<circ> fst) (chunksOf onTime)))"
    by code_simp
  have d: "\<forall>j. 0 < j \<and> j \<le> 2 \<longrightarrow>
            currentTime (fst (chunksOf onTime ! j))
              \<le> startTimes (snd (deliver onmessage onTime opened)) ! 0
                 + sum_list (take j (map (duration \<circ> fst) (chunksOf onTime)))"
  proof (intro allI impI)
    fix j :: nat assume "0 < j \<and> j \<le> 2"
    then have "j = 1 \<or> j = 2" by auto
    then show "currentTime (fst (chunksOf onTime ! j))
              \<le> startTimes (snd (deliver onmessage onTime opened)) ! 0
                 + sum_list (take j (map (duration \<circ> fst) (chunksOf onTime)))"
      using d1 d2 by (auto simp: ts)
  qed
  from chunk_start_times [OF a b c] d a b len ts show ?thesis
    by blast
qed

text \<open>
  Claim C2 fails on the code. A message with the interruption flag whose \<open>modelTurn\<close> has no
  \<open>parts\<close> makes the handler throw at the unguarded \<open>parts[0]\<close>, before the interruption block:
  the source node stays in the set and is not stopped, \<open>nextStartTimeRef\<close> stays at 10, and the
  chunk that arrives next, at clock time 3, is started at 10.
\<close>

theorem interruption_lost_when_parts_missing:
  "interruptedOf interruptionNoParts
   \<and> sourcesRef playingLong = [0]
   \<and> nextStartTimeRef playingLong = 10
   \<and> snd (onmessage \<lparr>currentTime = 2, duration = 0\<rparr> interruptionNoParts playingLong)
       = [Throw TypeError]
   \<and> sourcesRef (fst (onmessage \<lparr>currentTime = 2, duration = 0\<rparr> interruptionNoParts playingLong))
       = [0]
   \<and> nextStartTimeRef (fst (onmessage \<lparr>currentTime = 2, duration = 0\<rparr> interruptionNoParts playingLong))
       = 10
   \<and> startTimes (snd (onmessage \<lparr>currentTime = 3, duration = 1\<rparr> chunk
        (fst (onmessage \<lparr>currentTime = 2, duration = 0\<rparr> interruptionNoParts playingLong))))
       = [10]"
  by code_simp

text \<open>
  Claim C3. Every handler step inside a session (a message without the interruption flag,
  open, ended, close, transport error, stop, unmount, animation frame) leaves \<open>nextStartTimeRef\<close> where
  it was or moves it forward.
\<close>

theorem nextStartTime_monotone:
  assumes "deliverable e" and "withinSession e" and "\<not> interrupts e"
  shows "nextStartTimeRef s \<le> nextStartTimeRef (fst (handle_event e s))"
proof (cases e)
  case (Message r m)
  with assms have d: "0 \<le> duration r" and ni: "\<not> interruptedOf m"
    by simp_all
  from d have "nextStartTimeRef s \<le> max (nextStartTimeRef s) (currentTime r) + duration r"
    by arith
  with Message ni show ?thesis
    by (simp add: onmessage_nextStartTimeRef resets_def)
next
  case (Open f)
  then show ?thesis
    by (simp add: onopen_def visualize_def Let_def split: option.split)
next
  case (AnimationFrame f)
  then show ?thesis
    by (simp add: visualize_def)
qed (use assms in \<open>simp_all add: stop_state onclose_def onerror_state onended_def\<close>)

text \<open>
  Claim C3 at a chunk of two seconds arriving at clock time 5 in the session \<open>playing\<close>:
  \<open>nextStartTimeRef\<close> goes from 1 to 7.
\<close>

theorem nextStartTime_monotone_witness:
  "deliverable (Message \<lparr>currentTime = 5, duration = 2\<rparr> chunk)
   \<and> withinSession (Message \<lparr>currentTime = 5, duration = 2\<rparr> chunk)
   \<and> \<not> interrupts (Message \<lparr>currentTime = 5, duration = 2\<rparr> chunk)
   \<and> nextStartTimeRef playing = 1
   \<and> nextStartTimeRef (fst (handle_event (Message \<lparr>currentTime = 5, duration = 2\<rparr> chunk) playing)) = 7"
proof -
  let ?e = "Message \<lparr>currentTime = 5, duration = 2\<rparr> chunk"
  have a: "deliverable ?e" by simp
  have b: "withinSession ?e" by simp
  have c: "\<not> interrupts ?e" by code_simp
  have d: "nextStartTimeRef (fst (handle_event ?e playing)) = 7" by code_simp
  from nextStartTime_monotone [OF a b c, of playing] a b c d show ?thesis
    by (simp add: playing_fields)
qed

text \<open>
  Claim C4. A second \<open>stopConversation\<close> right after a first changes nothing and calls
  nothing, in every state; and in every state the component can reach, all resources are
  given up after it: no source node, session, media stream, script processor, audio context or
  animation frame is held.
\<close>

theorem stop_twice_idempotent:
  "stopConversation (fst (stopConversation s)) = (fst (stopConversation s), [])
   \<and> (reachable s \<longrightarrow> released (fst (stopConversation (fst (stopConversation s)))))"
  by (simp add: stop_twice stop_released reachable_sound)

text \<open>
  Claim C4 at the session \<open>playing\<close>, which holds a stream, a session, both contexts, an
  animation frame and a source node.
\<close>

theorem stop_twice_idempotent_witness:
  "reachable playing
   \<and> sourcesRef playing = [0] \<and> mediaStreamRef playing = Some [0, 1]
   \<and> released (fst (stopConversation (fst (stopConversation playing))))"
proof -
  from stop_twice_idempotent [of playing] playing_reachable
  have "released (fst (stopConversation (fst (stopConversation playing))))"
    by blast
  with playing_reachable show ?thesis
    by (simp add: playing_fields)
qed

text \<open>
  Claim C5. After the teardown that the stop button, a remote close, a transport error,
  unmounting or a failed start runs, in any reachable state, the set of source nodes is empty and every one
  of them was stopped, and every track of the microphone stream held was stopped and the stream
  let go.
\<close>

theorem teardown_releases:
  assumes "reachable s" and "tearsDown e s"
  shows "sourcesRef (fst (handle_event e s)) = []
     \<and> mediaStreamRef (fst (handle_event e s)) = None
     \<and> (\<forall>n \<in> set (sourcesRef s). SourceStop n \<in> set (snd (handle_event e s)))
     \<and> (\<forall>stream. heldStream e s = Some stream \<longrightarrow>
          (\<forall>t \<in> set stream. TrackStop t \<in> set (snd (handle_event e s))))"
proof -
  have snd_s: "sound s"
    using assms(1) by (rule reachable_sound)
  have stop_all: "sourcesRef (fst (stopConversation u)) = []
       \<and> mediaStreamRef (fst (stopConversation u)) = None
       \<and> (\<forall>n \<in> set (sourcesRef u). SourceStop n \<in> set (snd (stopConversation u)))
       \<and> (\<forall>stream. mediaStreamRef u = Some stream \<longrightarrow>
            (\<forall>t \<in> set stream. TrackStop t \<in> set (snd (stopConversation u))))"
    if "sound u" for u
    using that by (simp add: stop_sourcesRef stop_SourceStop stop_TrackStop) (simp add: stop_state)
  show ?thesis
  proof (cases e)
    case StopClick
    then show ?thesis using stop_all [OF snd_s] by simp
  next
    case Unmount
    then show ?thesis using stop_all [OF snd_s] by simp
  next
    case Close
    then show ?thesis using stop_all [OF snd_s] by (simp add: onclose_def)
  next
    case TransportError
    have "sound (s\<lparr>conversationState := Error\<rparr>)"
      using snd_s by (simp add: sound_def)
    from stop_all [OF this] TransportError show ?thesis
      by (simp add: onerror_state onerror_effects)
  next
    case (StartClick out)
    show ?thesis
    proof (cases out)
      case GetUserMediaRejected
      with StartClick assms(2) have idle: "rendered_conversationState (render_of s) = Idle"
        by (simp add: render_of_def)
      have "sound (s\<lparr>conversationState := Connecting, transcriptions := [],
               currentTranscription := emptyTranscription, conversationState := Error\<rparr>)"
        using snd_s by (simp add: sound_def)
      from stop_all [OF this] StartClick GetUserMediaRejected idle show ?thesis
        by (simp add: startConversation_rejected catchStart_state catchStart_effects)
    next
      case (ThrewAfterStream stream)
      with StartClick assms(2) have idle: "rendered_conversationState (render_of s) = Idle"
        by (simp add: render_of_def)
      have "sound (s\<lparr>conversationState := Connecting, transcriptions := [],
               currentTranscription := emptyTranscription, mediaStreamRef := Some stream,
               conversationState := Error\<rparr>)"
        using snd_s by (simp add: sound_def)
      from stop_all [OF this] StartClick ThrewAfterStream idle show ?thesis
        by (simp add: startConversation_threw catchStart_state catchStart_effects)
    next
      case (Connected stream p)
      with StartClick assms(2) show ?thesis by simp
    qed
  qed (use assms(2) in simp_all)
qed

text \<open>
  Claim C5 at a remote close in the session \<open>playing\<close>.
\<close>

theorem teardown_releases_witness:
  "reachable playing \<and> tearsDown Close playing
   \<and> sourcesRef (fst (handle_event Close playing)) = []
   \<and> mediaStreamRef (fst (handle_event Close playing)) = None
   \<and> SourceStop 0 \<in> set (snd (handle_event Close playing))
   \<and> TrackStop 0 \<in> set (snd (handle_event Close playing))
   \<and> TrackStop 1 \<in> set (snd (handle_event Close playing))"
proof -
  have a: "tearsDown Close playing"
    by simp
  from teardown_releases [OF playing_reachable a] playing_reachable show ?thesis
    by (simp add: playing_fields)
qed

text \<open>
  Claim C6. A click on start while the conversation state is not idle changes no field of
  the component and makes no call: no \<open>getUserMedia\<close>, no \<open>connect\<close>, whatever the browser
  would have answered.
\<close>

theorem start_while_live_is_noop:
  "conversationState s \<noteq> Idle \<Longrightarrow> handle_event (StartClick out) s = (s, [])"
  by (simp add: startConversation_not_idle render_of_def)

text \<open>
  Claim C6 at the listening session \<open>playing\<close>.
\<close>

theorem start_while_live_is_noop_witness:
  "conversationState playing \<noteq> Idle
   \<and> handle_event (StartClick (Connected [2] 8)) playing = (playing, [])"
proof -
  have a: "conversationState playing \<noteq> Idle"
    by (simp add: playing_fields)
  from start_while_live_is_noop [OF a] a show ?thesis
    by simp
qed

text \<open>
  Claim C7. The blob of a block is tagged \<open>audio/pcm;rate=16000\<close> and its payload is the
  encoding of two bytes per input sample, the low byte first, which together hold the 16-bit
  sample. A finite sample \<open>x\<close> becomes \<open>x * 32768\<close> truncated towards zero and taken modulo
  \<open>2^16\<close>, read as signed: nothing is clamped, and for \<open>-1 \<le> x < 1\<close> nothing wraps. A sample
  that is not finite becomes 0.
\<close>

theorem createBlob_pcm:
  "mimeType (createBlob encode data) = ''audio/pcm;rate=16000''
   \<and> blob_data (createBlob encode data) = encode (bytesOf (int16Of data))
   \<and> length (int16Of data) = length data
   \<and> length (bytesOf (int16Of data)) = 2 * length data
   \<and> (\<forall>i<length data.
         uint (bytesOf (int16Of data) ! (2 * i)) + 256 * uint (bytesOf (int16Of data) ! (2 * i + 1))
           = uint (int16Of data ! i)
         \<and> (\<forall>x. data ! i = Finite x \<longrightarrow>
               sint (int16Of data ! i) = wrap16 (js_truncate (x * 32768))
               \<and> uint (int16Of data ! i) = js_truncate (x * 32768) mod 65536
               \<and> (- 1 \<le> x \<and> x < 1 \<longrightarrow> sint (int16Of data ! i) = js_truncate (x * 32768)))
         \<and> ((\<forall>x. data ! i \<noteq> Finite x) \<longrightarrow> int16Of data ! i = 0))"
proof -
  have len: "length (int16Of data) = length data"
    by (simp add: int16Of_map)
  have bytes: "uint (bytesOf (int16Of data) ! (2 * i)) + 256 * uint (bytesOf (int16Of data) ! (2 * i + 1))
           = uint (int16Of data ! i)" if "i < length data" for i
    using that bytesOf_nth [of i "int16Of data"] len by (simp add: two_bytes)
  have signed: "sint (int16Of data ! i) = wrap16 (js_truncate (x * 32768))"
    and unsigned: "uint (int16Of data ! i) = js_truncate (x * 32768) mod 65536"
    if "i < length data" "data ! i = Finite x" for i x
    using that by (simp_all add: int16Of_map sint_ToInt16 uint_ToInt16 del: ToInt16.simps)
  have inside: "wrap16 (js_truncate (x * 32768)) = js_truncate (x * 32768)"
    if "- 1 \<le> x" "x < 1" for x
    using that by (intro wrap16_id js_truncate_range)
  have other: "int16Of data ! i = 0" if "i < length data" "\<forall>x. data ! i \<noteq> Finite x" for i
    using that by (cases "data ! i") (simp_all add: int16Of_map)
  show ?thesis
    using len bytes signed unsigned inside other
    by (simp add: createBlob_def length_bytesOf)
qed

text \<open>
  Claim C7 at the block \<open>[1/2, 1, -3/2, NaN]\<close>: the sample 1 wraps to \<open>-32768\<close> and
  \<open>-3/2\<close> to \<open>16384\<close>; the eight bytes of the payload before encoding.
\<close>

theorem createBlob_pcm_witness:
  "length block = 4
   \<and> map sint (int16Of block) = [16384, - 32768, 16384, 0]
   \<and> bytesOf (int16Of block) = [0, 64, 0, 128, 0, 64, 0, 0]
   \<and> mimeType (createBlob (\<lambda>bs. []) block) = ''audio/pcm;rate=16000''"
proof -
  have fin: "block ! 0 = Finite (1 / 2)" "block ! 1 = Finite 1" "block ! 2 = Finite (- 3 / 2)"
    and len: "length block = 4"
    by (simp_all add: block_def)
  note inst = createBlob_pcm [of "\<lambda>bs. []" block]
  from inst have each: "sint (int16Of block ! i) = wrap16 (js_truncate (x * 32768))"
    if "i < 4" "block ! i = Finite x" for i x
    using that len by simp
  have s0: "sint (int16Of block ! 0) = 16384"
    using each [OF _ fin(1)] by (simp add: wrap16_def js_truncate_def)
  have s1: "sint (int16Of block ! 1) = - 32768"
    using each [OF _ fin(2)] by (simp add: wrap16_def js_truncate_def)
  have s2: "sint (int16Of block ! 2) = 16384"
    using each [OF _ fin(3)] by (simp add: wrap16_def js_truncate_def)
  have s3: "sint (int16Of block ! 3) = 0"
    by (simp add: int16Of_map block_def)
  have bs: "bytesOf (int16Of block) = [0, 64, 0, 128, 0, 64, 0, 0]"
    by code_simp
  from inst len have "length (int16Of block) = 4"
    by simp
  then have "map sint (int16Of block) = [16384, - 32768, 16384, 0]"
    using s0 s1 s2 s3
    by (simp add: list_eq_iff_nth_eq nth_Cons' less_Suc_eq numeral_eq_Suc)
  with inst len bs show ?thesis
    by simp
qed


text \<open>
  Claim C9 fails on the code. In a first session the partial transcripts \<open>hi\<close> and \<open>yo\<close>
  are accumulated, and the turn completion appends the pair of two empty strings: the value of
  \<open>currentTranscription\<close> that the callback closed over when the session was started.
\<close>

theorem turnComplete_appends_closure:
  "currentTranscription (fst (deliver onmessage
      [(\<lparr>currentTime = 0, duration = 0\<rparr>, heard ''hi''),
       (\<lparr>currentTime = 0, duration = 0\<rparr>, said ''yo'')] opened))
     = \<lparr>user = ''hi'', model = ''yo''\<rparr>
   \<and> transcriptions (fst (deliver onmessage
      [(\<lparr>currentTime = 0, duration = 0\<rparr>, heard ''hi''),
       (\<lparr>currentTime = 0, duration = 0\<rparr>, said ''yo''),
       (\<lparr>currentTime = 0, duration = 0\<rparr>, turnEnd)] opened))
     = [\<lparr>user = '''', model = ''''\<rparr>]"
  by code_simp

text \<open>
  Claim C10. From any state, for any messages whose clock readings are not negative and do
  not go back, the handler that resets \<open>nextStartTimeRef\<close> to the clock reading makes the
  same calls, with the same start times, as the handler of the source, which resets it to 0.
\<close>

theorem reset_choice_equivalent:
  assumes "clockFrom 0 ms"
  shows "snd (deliver onmessage_clock ms s) = snd (deliver onmessage ms s)"
proof -
  have "snd (deliver onmessage_clock ms (s\<lparr>nextStartTimeRef := nextStartTimeRef s\<rparr>))
      = snd (deliver onmessage ms (s\<lparr>nextStartTimeRef := nextStartTimeRef s\<rparr>))"
    using assms by (rule deliver_reset_choice) simp_all
  then show ?thesis by simp
qed

text \<open>
  Claim C10 at the run \<open>bargeIn\<close> in the session \<open>playing\<close>: both handlers start the two
  chunks at 4 and at 5.
\<close>

theorem reset_choice_equivalent_witness:
  "clockFrom 0 bargeIn
   \<and> snd (deliver onmessage_clock bargeIn playing) = snd (deliver onmessage bargeIn playing)
   \<and> startTimes (snd (deliver onmessage bargeIn playing)) = [4, 5]"
proof -
  have a: "clockFrom 0 bargeIn"
    by code_simp
  have b: "startTimes (snd (deliver onmessage bargeIn playing)) = [4, 5]"
    by code_simp
  from reset_choice_equivalent [OF a, of playing] a b show ?thesis
    by simp
qed

end
